theory Spec2Isabelle
  imports Main "HOL-Library.Word"
begin

section \<open>The wrapped object (MyCppClass.cpp)\<close>

text \<open>
  The class has two private fields, \<^verbatim>\<open>int value_\<close> and \<^verbatim>\<open>std::string message_\<close>.
  \<^verbatim>\<open>int\<close> is 32 bits wide on the targets of the example, so it is a \<open>32 word\<close>: \<open>+\<close>
  wraps around as the two's complement machine addition does, and \<open>sint\<close> reads the
  signed value. (The C++ standard leaves a signed overflow undefined; the theorems that
  speak of the mathematical value are stated for the range where no overflow occurs.)
  An Isabelle name cannot end with an underscore, so the fields are \<open>value_m\<close> and
  \<open>message_m\<close>. Methods that mutate the object return the updated object.
\<close>

type_synonym c_int = "32 word"

record MyCppClass =
  value_m :: c_int
  message_m :: string

definition MyCppClass_ctor :: "c_int \<Rightarrow> MyCppClass" where
  "MyCppClass_ctor initial_value = \<lparr>value_m = initial_value, message_m = ''Default message''\<rparr>"

definition getValue :: "MyCppClass \<Rightarrow> c_int" where
  "getValue this = value_m this"

definition setValue :: "MyCppClass \<Rightarrow> c_int \<Rightarrow> MyCppClass" where
  "setValue this v = this\<lparr>value_m := v\<rparr>"

definition increment :: "MyCppClass \<Rightarrow> MyCppClass" where
  "increment this = this\<lparr>value_m := value_m this + 1\<rparr>"

definition getMessage :: "MyCppClass \<Rightarrow> string" where
  "getMessage this = message_m this"

definition setMessage :: "MyCppClass \<Rightarrow> string \<Rightarrow> MyCppClass" where
  "setMessage this msg = this\<lparr>message_m := msg\<rparr>"

section \<open>IEEE 754 binary64 arithmetic\<close>

text \<open>
  \<^verbatim>\<open>double\<close> is the IEEE 754 binary64 format: a \<open>64 word\<close> holding the sign (bit 63),
  the biased exponent (bits 52 to 62) and the fraction (bits 0 to 51). Every bit pattern
  is a value. \<open>d_mag\<close> reads the magnitude of a finite number as a multiple of the
  smallest subnormal \<open>2\<^sup>-\<^sup>1\<^sup>0\<^sup>7\<^sup>4\<close>, so that sums of finite numbers are exact integers; an
  infinity reads as \<open>2\<^sup>2\<^sup>0\<^sup>9\<^sup>8\<close>, above every finite magnitude.

  \<open>round_mag n d\<close> is the bit pattern (without sign) of the double nearest to \<open>n / d\<close>
  units, ties to even, the default rounding of \<^verbatim>\<open>+\<close> and \<^verbatim>\<open>/\<close>: the quotient is cut to 53
  significant bits and the carry of the rounding runs into the exponent field.
  Every operation rounds its exact result to binary64 at once, as the compiled code does
  where \<^verbatim>\<open>double\<close> arithmetic runs in binary64 registers (x86-64, AArch64).
  IEEE 754 leaves open which NaN an operation returns; the model returns the first NaN
  operand with its quiet bit set, and \<open>default_nan\<close> for an invalid operation. The theorems
  compare results with \<open>double_eq\<close>, the \<^verbatim>\<open>==\<close> of the language, and do not depend on that
  choice.
\<close>

type_synonym double = "64 word"

definition d_sign :: "double \<Rightarrow> bool" where
  "d_sign x = (2 ^ 63 \<le> unat x)"

definition d_exp :: "double \<Rightarrow> nat" where
  "d_exp x = unat x div 2 ^ 52 mod 2 ^ 11"

definition d_frac :: "double \<Rightarrow> nat" where
  "d_frac x = unat x mod 2 ^ 52"

definition is_nan :: "double \<Rightarrow> bool" where
  "is_nan x = (d_exp x = 2047 \<and> d_frac x \<noteq> 0)"

definition is_inf :: "double \<Rightarrow> bool" where
  "is_inf x = (d_exp x = 2047 \<and> d_frac x = 0)"

definition d_mag :: "double \<Rightarrow> nat" where
  "d_mag x = (if d_exp x = 0 then d_frac x else (2 ^ 52 + d_frac x) * 2 ^ (d_exp x - 1))"

definition d_units :: "double \<Rightarrow> int" where
  "d_units x = (if d_sign x then - int (d_mag x) else int (d_mag x))"

fun bit_length :: "nat \<Rightarrow> nat" where
  "bit_length n = (if n = 0 then 0 else Suc (bit_length (n div 2)))"

declare bit_length.simps [simp del]

text \<open>Round \<open>n / d\<close> to the nearest natural number, a tie to the even one.\<close>

definition round_half_even :: "nat \<Rightarrow> nat \<Rightarrow> nat" where
  "round_half_even n d =
     (let q = n div d; r = n mod d
      in if d < 2 * r \<or> (2 * r = d \<and> odd q) then q + 1 else q)"

definition inf_bits :: nat where
  "inf_bits = 2047 * 2 ^ 52"

definition round_mag :: "nat \<Rightarrow> nat \<Rightarrow> nat" where
  "round_mag n d =
     (let b = bit_length (n div d);
          k = (if b \<le> 53 then 0 else b - 53);
          p = k * 2 ^ 52 + round_half_even n (d * 2 ^ k)
      in if inf_bits \<le> p then inf_bits else p)"

definition d_pack :: "bool \<Rightarrow> nat \<Rightarrow> double" where
  "d_pack s p = of_nat ((if s then 2 ^ 63 else 0) + p)"

definition quiet :: "double \<Rightarrow> double" where
  "quiet x = or x 0x0008000000000000"

definition default_nan :: double where
  "default_nan = 0x7FF8000000000000"

definition double_add :: "double \<Rightarrow> double \<Rightarrow> double" where
  "double_add x y =
     (if is_nan x then quiet x
      else if is_nan y then quiet y
      else if is_inf x then (if is_inf y \<and> d_sign x \<noteq> d_sign y then default_nan else x)
      else if is_inf y then y
      else let s = d_units x + d_units y
           in if s = 0 then d_pack (d_sign x \<and> d_sign y) 0
              else d_pack (s < 0) (round_mag (nat \<bar>s\<bar>) 1))"

definition double_div :: "double \<Rightarrow> double \<Rightarrow> double" where
  "double_div x y =
     (if is_nan x then quiet x
      else if is_nan y then quiet y
      else let s = (d_sign x \<noteq> d_sign y)
           in if is_inf x then (if is_inf y then default_nan else d_pack s inf_bits)
              else if is_inf y then d_pack s 0
              else if d_mag y = 0 then (if d_mag x = 0 then default_nan else d_pack s inf_bits)
              else d_pack s (round_mag (d_mag x * 2 ^ 1074) (d_mag y)))"

definition double_of_nat :: "nat \<Rightarrow> double" where
  "double_of_nat n = d_pack False (round_mag (n * 2 ^ 1074) 1)"

definition double_eq :: "double \<Rightarrow> double \<Rightarrow> bool" where
  "double_eq x y = (\<not> is_nan x \<and> \<not> is_nan y \<and> d_units x = d_units y)"

definition double_zero :: double where
  "double_zero = 0"

section \<open>calculateSum (MyCppClass.cpp)\<close>

text \<open>
  \<^verbatim>\<open>std::accumulate(values.begin(), values.end(), 0.0)\<close> adds the elements to the
  accumulator from left to right, starting from \<^verbatim>\<open>0.0\<close>. The method reads no field.
\<close>

definition accumulate :: "double list \<Rightarrow> double \<Rightarrow> double" where
  "accumulate values init = foldl double_add init values"

definition calculateSum :: "MyCppClass \<Rightarrow> double list \<Rightarrow> double" where
  "calculateSum this values = accumulate values double_zero"

section \<open>The C library (mylib.c)\<close>

text \<open>
  A read through a null pointer or past the end of the array a pointer points to, and the
  use of a handle or buffer that is not live, are undefined behaviour in C: the model
  returns a \<open>fault\<close> there. A pointer to an array is the array's contents, \<open>None\<close> for a
  null pointer. \<^verbatim>\<open>size_t\<close> is a \<open>64 word\<close>.
\<close>

datatype fault = NullPointer | OutOfBounds | InvalidHandle | InvalidFree

type_synonym size_t = "64 word"

text \<open>
  \<^verbatim>\<open>int32_t\<close> is a \<open>32 word\<close>. As for \<^verbatim>\<open>int\<close> above, \<open>+\<close> is the two's complement
  addition of the target; C leaves the sum of two \<^verbatim>\<open>int32_t\<close> undefined where it
  overflows.
\<close>

definition add_numbers :: "32 word \<Rightarrow> 32 word \<Rightarrow> 32 word" where
  "add_numbers a b = a + b"

text \<open>The loop of \<^verbatim>\<open>calculate_average\<close>, from index \<open>i\<close> with the running sum \<open>acc\<close>.\<close>

function average_loop :: "double list \<Rightarrow> nat \<Rightarrow> nat \<Rightarrow> double \<Rightarrow> fault + double" where
  "average_loop values count i acc =
     (if i < count
      then (if i < length values
            then average_loop values count (Suc i) (double_add acc (values ! i))
            else Inl OutOfBounds)
      else Inr acc)"
  by pat_completeness auto
termination
  by (relation "measure (\<lambda>(values, count, i, acc). count - i)") auto

declare average_loop.simps [simp del]

definition calculate_average :: "double list option \<Rightarrow> size_t \<Rightarrow> fault + double" where
  "calculate_average values count =
     (if count = 0 then Inr double_zero
      else case values of
             None \<Rightarrow> Inl NullPointer
           | Some vs \<Rightarrow>
               (case average_loop vs (unat count) 0 double_zero of
                  Inl e \<Rightarrow> Inl e
                | Inr acc \<Rightarrow> Inr (double_div acc (double_of_nat (unat count)))))"

section \<open>The C bridge (c_bridge.cpp)\<close>

text \<open>
  A handle is the address of a live object or null (\<open>None\<close>); the bridge state holds
  the live objects and the live \<^verbatim>\<open>malloc\<close> buffers by address. The casts between
  \<^verbatim>\<open>MyCppClass_Opaque*\<close> and \<^verbatim>\<open>MyCppClass*\<close> do not change the address.

  What the C++ runtime decides is a parameter of the function: the address \<^verbatim>\<open>new\<close> or
  \<^verbatim>\<open>malloc\<close> returns (\<open>None\<close> when \<^verbatim>\<open>new\<close> throws or \<^verbatim>\<open>malloc\<close> returns null), and
  whether the \<^verbatim>\<open>std::string\<close> or \<^verbatim>\<open>std::vector\<close> built inside the \<^verbatim>\<open>try\<close> block
  throws. Every \<^verbatim>\<open>catch (...)\<close> returns the sentinel of the function. \<open>getValue\<close>,
  \<open>setValue\<close> and \<open>increment\<close> throw nothing, so their handlers are never entered.
  An allocator returns an address that is not live; no theorem below needs that, so it
  is not assumed.
\<close>

type_synonym addr = nat

type_synonym handle = "addr option"

record bridge_state =
  objects :: "addr \<rightharpoonup> MyCppClass"
  buffers :: "addr \<rightharpoonup> string"

text \<open>The C string a \<^verbatim>\<open>char*\<close> denotes ends before the first NUL byte.\<close>

definition c_str :: "string \<Rightarrow> string" where
  "c_str s = takeWhile (\<lambda>c. c \<noteq> CHR 0x00) s"

definition MyCppClass_create :: "bridge_state \<Rightarrow> addr option \<Rightarrow> c_int \<Rightarrow> handle \<times> bridge_state" where
  "MyCppClass_create st new_result initial_value =
     (case new_result of
        None \<Rightarrow> (None, st)
      | Some a \<Rightarrow> (Some a, st\<lparr>objects := (objects st)(a \<mapsto> MyCppClass_ctor initial_value)\<rparr>))"

definition MyCppClass_destroy :: "bridge_state \<Rightarrow> handle \<Rightarrow> fault + bridge_state" where
  "MyCppClass_destroy st obj =
     (case obj of
        None \<Rightarrow> Inr st
      | Some a \<Rightarrow>
          (case objects st a of
             None \<Rightarrow> Inl InvalidHandle
           | Some this \<Rightarrow> Inr (st\<lparr>objects := (objects st)(a := None)\<rparr>)))"

definition MyCppClass_getValue :: "bridge_state \<Rightarrow> handle \<Rightarrow> fault + c_int" where
  "MyCppClass_getValue st obj =
     (case obj of
        None \<Rightarrow> Inr 0
      | Some a \<Rightarrow>
          (case objects st a of
             None \<Rightarrow> Inl InvalidHandle
           | Some this \<Rightarrow> Inr (getValue this)))"

definition MyCppClass_setValue :: "bridge_state \<Rightarrow> handle \<Rightarrow> c_int \<Rightarrow> fault + bridge_state" where
  "MyCppClass_setValue st obj v =
     (case obj of
        None \<Rightarrow> Inr st
      | Some a \<Rightarrow>
          (case objects st a of
             None \<Rightarrow> Inl InvalidHandle
           | Some this \<Rightarrow> Inr (st\<lparr>objects := (objects st)(a \<mapsto> setValue this v)\<rparr>)))"

definition MyCppClass_increment :: "bridge_state \<Rightarrow> handle \<Rightarrow> fault + bridge_state" where
  "MyCppClass_increment st obj =
     (case obj of
        None \<Rightarrow> Inr st
      | Some a \<Rightarrow>
          (case objects st a of
             None \<Rightarrow> Inl InvalidHandle
           | Some this \<Rightarrow> Inr (st\<lparr>objects := (objects st)(a \<mapsto> increment this)\<rparr>)))"

text \<open>
  \<open>copy_throws\<close>: the copy of the message into \<^verbatim>\<open>msg\<close> throws; \<open>malloc_result\<close>: the
  address \<^verbatim>\<open>malloc\<close> returns. \<^verbatim>\<open>strcpy\<close> copies up to the first NUL byte.
\<close>

definition MyCppClass_getMessage ::
  "bridge_state \<Rightarrow> handle \<Rightarrow> bool \<Rightarrow> addr option \<Rightarrow> fault + (addr option \<times> bridge_state)" where
  "MyCppClass_getMessage st obj copy_throws malloc_result =
     (case obj of
        None \<Rightarrow> Inr (None, st)
      | Some a \<Rightarrow>
          (case objects st a of
             None \<Rightarrow> Inl InvalidHandle
           | Some this \<Rightarrow>
               if copy_throws then Inr (None, st)
               else (case malloc_result of
                       None \<Rightarrow> Inr (None, st)
                     | Some b \<Rightarrow>
                         Inr (Some b, st\<lparr>buffers := (buffers st)(b \<mapsto> c_str (getMessage this))\<rparr>))))"

text \<open>
  \<open>message\<close> is the byte array a \<^verbatim>\<open>const char*\<close> points to; the temporary
  \<^verbatim>\<open>std::string\<close> built from it (which may throw) holds its C string.
\<close>

definition MyCppClass_setMessage ::
  "bridge_state \<Rightarrow> handle \<Rightarrow> string option \<Rightarrow> bool \<Rightarrow> fault + bridge_state" where
  "MyCppClass_setMessage st obj message string_throws =
     (case (obj, message) of
        (Some a, Some m) \<Rightarrow>
          if string_throws then Inr st
          else (case objects st a of
                  None \<Rightarrow> Inl InvalidHandle
                | Some this \<Rightarrow> Inr (st\<lparr>objects := (objects st)(a \<mapsto> setMessage this (c_str m))\<rparr>))
      | _ \<Rightarrow> Inr st)"

text \<open>\<^verbatim>\<open>free\<close> does nothing on a null pointer and releases a live buffer.\<close>

definition MyCppClass_freeString :: "bridge_state \<Rightarrow> addr option \<Rightarrow> fault + bridge_state" where
  "MyCppClass_freeString st str =
     (case str of
        None \<Rightarrow> Inr st
      | Some b \<Rightarrow>
          (case buffers st b of
             None \<Rightarrow> Inl InvalidFree
           | Some s \<Rightarrow> Inr (st\<lparr>buffers := (buffers st)(b := None)\<rparr>)))"

text \<open>
  The vector is filled from the \<open>count\<close> doubles at \<open>values\<close> (a read past the end of
  the array is a fault); \<open>vector_throws\<close>: its allocation throws.
\<close>

definition MyCppClass_calculateSum ::
  "bridge_state \<Rightarrow> handle \<Rightarrow> double list option \<Rightarrow> size_t \<Rightarrow> bool \<Rightarrow> fault + double" where
  "MyCppClass_calculateSum st obj values count vector_throws =
     (case (obj, values) of
        (Some a, Some vs) \<Rightarrow>
          if vector_throws then Inr double_zero
          else if length vs < unat count then Inl OutOfBounds
          else (case objects st a of
                  None \<Rightarrow> Inl InvalidHandle
                | Some this \<Rightarrow> Inr (calculateSum this (take (unat count) vs)))
      | _ \<Rightarrow> Inr double_zero)"

text \<open>The state with no live object and no live buffer.\<close>

definition empty_state :: bridge_state where
  "empty_state = \<lparr>objects = Map.empty, buffers = Map.empty\<rparr>"

section \<open>Properties of the wrapped object\<close>

text \<open>
  C3: for every initial value, the message of a freshly constructed object is
  \<open>''Default message''\<close>.
\<close>

theorem fresh_object_default_message:
  "getMessage (MyCppClass_ctor v) = ''Default message''"
  by (simp add: getMessage_def MyCppClass_ctor_def)

text \<open>
  C5: after \<open>setMessage t\<close> on any object, \<open>getMessage\<close> returns exactly \<open>t\<close>, for
  every text and so for the empty one.
\<close>

theorem setMessage_getMessage_roundtrip:
  "getMessage (setMessage obj t) = t \<and> getMessage (setMessage obj []) = []"
  by (simp add: getMessage_def setMessage_def)

text \<open>
  C9: \<open>setValue\<close> and \<open>increment\<close> leave the message as it was, and \<open>setMessage\<close>
  leaves the value as it was.
\<close>

theorem mutators_frame:
  "getMessage (setValue obj v) = getMessage obj \<and>
   getMessage (increment obj) = getMessage obj \<and>
   getValue (setMessage obj t) = getValue obj"
  by (simp add: getMessage_def getValue_def setValue_def increment_def setMessage_def)

subsection \<open>Repeated increment\<close>

lemma getValue_increment_funpow:
  "getValue ((increment ^^ n) obj) = getValue obj + of_nat n"
  by (induction n) (simp_all add: getValue_def increment_def)

lemma sint_add_in_range:
  fixes a b :: "32 word"
  assumes "- (2 ^ 31) \<le> sint a + sint b" "sint a + sint b < 2 ^ 31"
  shows "sint (a + b) = sint a + sint b"
  using assms by (simp add: sint_word_ariths signed_take_bit_int_eq_self)

lemma sint_add_of_nat_in_range:
  fixes a :: "32 word"
  assumes "sint a + int n < 2 ^ 31"
  shows "sint (a + of_nat n) = sint a + int n"
proof -
  have lo: "- (2 ^ 31) \<le> sint a"
    using sint_ge [of a] by simp
  have eq: "a + of_nat n = word_of_int (sint a + int n)"
    by simp
  have "sint (word_of_int (sint a + int n) :: 32 word) = signed_take_bit 31 (sint a + int n)"
    by (simp only: sint_sbintrunc') simp
  also have "\<dots> = sint a + int n"
    using lo assms by (intro signed_take_bit_int_eq_self) simp_all
  finally show ?thesis
    by (simp only: eq)
qed

text \<open>
  C4 as stated fails at the largest \<^verbatim>\<open>int\<close>: one \<open>increment\<close> of \<open>2\<^sup>3\<^sup>1 - 1\<close> does not give a
  value larger by one.
\<close>

theorem increment_overflow_counterexample:
  "sint (getValue ((increment ^^ 1) (MyCppClass_ctor 0x7FFFFFFF)))
     \<noteq> sint (getValue (MyCppClass_ctor 0x7FFFFFFF)) + int 1"
  by (simp add: getValue_def increment_def MyCppClass_ctor_def)

text \<open>
  C4, amended: for every object and every natural number \<open>n\<close> such that the value plus
  \<open>n\<close> does not exceed \<open>2\<^sup>3\<^sup>1 - 1\<close>, applying \<open>increment\<close> \<open>n\<close> times increases the result
  of \<open>getValue\<close> by exactly \<open>n\<close>.
\<close>

theorem increment_n_times_in_range:
  "sint (getValue obj) + int n \<le> 2 ^ 31 - 1 \<Longrightarrow>
   sint (getValue ((increment ^^ n) obj)) = sint (getValue obj) + int n"
  by (simp add: getValue_increment_funpow sint_add_of_nat_in_range)

theorem increment_n_times_in_range_witness:
  "sint (getValue (MyCppClass_ctor 5)) + int 3 \<le> 2 ^ 31 - 1 \<and>
   sint (getValue ((increment ^^ 3) (MyCppClass_ctor 5))) = sint (getValue (MyCppClass_ctor 5)) + int 3"
  using increment_n_times_in_range [of "MyCppClass_ctor 5" 3]
  by (simp add: getValue_def MyCppClass_ctor_def)

section \<open>Properties of the binary64 arithmetic\<close>

subsection \<open>Rounding\<close>

text \<open>
  \<open>bit_length n\<close> is the position of the leading bit of \<open>n\<close>. When the quotient
  \<open>n / d\<close> lies in the binade \<open>[2\<^sup>5\<^sup>2 \<sqdot> 2\<^sup>k, 2\<^sup>5\<^sup>3 \<sqdot> 2\<^sup>k)\<close>, \<open>round_mag\<close> rounds at
  \<open>2\<^sup>k\<close> units; a common factor of \<open>n\<close> and \<open>d\<close> changes nothing, and a number that
  has a 53-bit significand is returned as it is.
\<close>

lemma bit_length_le: "n < 2 ^ b \<Longrightarrow> bit_length n \<le> b"
proof (induction b arbitrary: n)
  case 0
  then show ?case by (simp add: bit_length.simps)
next
  case (Suc b)
  have "n div 2 < 2 ^ b" using Suc.prems by simp
  then have "bit_length (n div 2) \<le> b" by (rule Suc.IH)
  then show ?case by (subst bit_length.simps) simp
qed

lemma bit_length_eq: "2 ^ b \<le> n \<Longrightarrow> n < 2 ^ Suc b \<Longrightarrow> bit_length n = Suc b"
proof (induction b arbitrary: n)
  case 0
  then have "n = 1" by simp
  then show ?case by (simp add: bit_length.simps)
next
  case (Suc b)
  have "2 ^ b \<le> n div 2" "n div 2 < 2 ^ Suc b" using Suc.prems by simp_all
  then have "bit_length (n div 2) = Suc b" by (rule Suc.IH)
  moreover have "(0::nat) < 2 ^ Suc b" by simp
  then have "n \<noteq> 0" using Suc.prems(1) by linarith
  ultimately show ?case by (subst bit_length.simps) simp
qed

lemma round_mag_below: 
  assumes "0 < d" "n < 2 ^ 53 * d"
  shows "round_mag n d = round_half_even n d"
proof -
  have q: "n div d < 2 ^ 53"
    using assms by (simp add: less_mult_imp_div_less)
  then have "bit_length (n div d) \<le> 53" by (rule bit_length_le)
  moreover have "round_half_even n d \<le> n div d + 1"
    by (simp add: round_half_even_def Let_def)
  then have "round_half_even n d < inf_bits" using q by (simp add: inf_bits_def)
  ultimately show ?thesis by (simp add: round_mag_def Let_def)
qed

lemma round_mag_normal:
  assumes "0 < d" "2 ^ 52 * (d * 2 ^ k) \<le> n" "n < 2 ^ 53 * (d * 2 ^ k)"
  shows "round_mag n d =
    (if inf_bits \<le> k * 2 ^ 52 + round_half_even n (d * 2 ^ k) then inf_bits
     else k * 2 ^ 52 + round_half_even n (d * 2 ^ k))"
proof -
  have lo: "2 ^ (52 + k) \<le> n div d"
  proof -
    have "2 ^ (52 + k) * d \<le> n" using assms(2) by (simp add: power_add mult_ac)
    then show ?thesis using assms(1) by (simp add: less_eq_div_iff_mult_less_eq)
  qed
  have hi: "n div d < 2 ^ Suc (52 + k)"
  proof -
    have "n < 2 ^ Suc (52 + k) * d" using assms(3) by (simp add: power_add mult_ac)
    then show ?thesis using assms(1) by (simp add: less_mult_imp_div_less)
  qed
  have b: "bit_length (n div d) = 53 + k"
    using bit_length_eq [OF lo hi] by simp
  show ?thesis by (simp add: round_mag_def Let_def b)
qed

lemma round_half_even_exact: "0 < d \<Longrightarrow> round_half_even (q * d) d = q"
  by (simp add: round_half_even_def)

lemma round_mag_exact:
  assumes "0 < d" "2 ^ 52 \<le> q" "q < 2 ^ 53" "k < 2046"
  shows "round_mag (q * 2 ^ k * d) d = k * 2 ^ 52 + q"
proof -
  have eq: "q * 2 ^ k * d = q * (d * 2 ^ k)" by (simp add: mult_ac)
  have "round_mag (q * (d * 2 ^ k)) d =
    (if inf_bits \<le> k * 2 ^ 52 + round_half_even (q * (d * 2 ^ k)) (d * 2 ^ k) then inf_bits
     else k * 2 ^ 52 + round_half_even (q * (d * 2 ^ k)) (d * 2 ^ k))"
    using assms(1-3) by (intro round_mag_normal) simp_all
  moreover have "round_half_even (q * (d * 2 ^ k)) (d * 2 ^ k) = q"
    using assms(1) by (intro round_half_even_exact) simp
  moreover have "k * 2 ^ 52 + q < inf_bits"
  proof -
    have "k * 2 ^ 52 \<le> 2045 * 2 ^ 52" using assms(4) by simp
    then show ?thesis using assms(3) by (simp add: inf_bits_def)
  qed
  ultimately show ?thesis by (simp add: eq)
qed

lemma round_half_even_cancel:
  assumes "0 < c"
  shows "round_half_even (n * c) (d * c) = round_half_even n d"
proof -
  have q: "(n * c) div (d * c) = n div d" using assms by simp
  have r: "(n * c) mod (d * c) = (n mod d) * c" by (simp add: mult_mod_left)
  have lt: "d * c < 2 * ((n mod d) * c) \<longleftrightarrow> d < 2 * (n mod d)"
    using assms by (simp add: mult.assoc [symmetric])
  have eq: "2 * ((n mod d) * c) = d * c \<longleftrightarrow> 2 * (n mod d) = d"
    using assms by (simp add: mult.assoc [symmetric])
  show ?thesis
    unfolding round_half_even_def Let_def q r lt eq ..
qed

lemma round_mag_cancel:
  assumes "0 < c"
  shows "round_mag (n * c) (d * c) = round_mag n d"
proof -
  have q: "(n * c) div (d * c) = n div d" using assms by simp
  have r: "round_half_even (n * c) (d * c * 2 ^ k) = round_half_even n (d * 2 ^ k)" for k
    using round_half_even_cancel [OF assms, of n "d * 2 ^ k"] by (simp add: mult_ac)
  show ?thesis
    unfolding round_mag_def Let_def q r ..
qed

lemma round_mag_scale:
  assumes "0 < d" "2 ^ 52 * (d * 2 ^ k) \<le> n" "n < 2 ^ 53 * (d * 2 ^ k)"
  shows "round_mag (n * 2 ^ j) d =
    (if inf_bits \<le> (k + j) * 2 ^ 52 + round_half_even n (d * 2 ^ k) then inf_bits
     else (k + j) * 2 ^ 52 + round_half_even n (d * 2 ^ k))"
proof -
  have lo: "2 ^ 52 * (d * 2 ^ (k + j)) \<le> n * 2 ^ j"
  proof -
    have "2 ^ 52 * (d * 2 ^ k) * 2 ^ j \<le> n * 2 ^ j" using assms(2) by simp
    then show ?thesis by (simp add: power_add mult_ac)
  qed
  have hi: "n * 2 ^ j < 2 ^ 53 * (d * 2 ^ (k + j))"
  proof -
    have "n * 2 ^ j < 2 ^ 53 * (d * 2 ^ k) * 2 ^ j" using assms(3) by simp
    then show ?thesis by (simp add: power_add mult_ac)
  qed
  have "round_half_even (n * 2 ^ j) (d * 2 ^ k * 2 ^ j) = round_half_even n (d * 2 ^ k)"
    by (intro round_half_even_cancel) simp
  then have r: "round_half_even (n * 2 ^ j) (d * 2 ^ (k + j)) = round_half_even n (d * 2 ^ k)"
    by (simp add: power_add mult_ac)
  show ?thesis
    unfolding round_mag_normal [OF assms(1) lo hi] r ..
qed

subsection \<open>Fields of a double\<close>

lemma d_frac_less: "d_frac x < 2 ^ 52"
  by (simp add: d_frac_def)

lemma unat_fields:
  "unat x = (if d_sign x then 2 ^ 63 else 0) + d_exp x * 2 ^ 52 + d_frac x"
proof -
  define u where "u = unat x"
  define a where "a = u div 2 ^ 52"
  define l where "l = u mod 2 ^ 52"
  define h where "h = a div 2 ^ 11"
  define m where "m = a mod 2 ^ 11"
  have u: "u < 2 ^ 64" using unsigned_less [of x, where 'a = nat] by (simp add: u_def)
  have h: "h = (if 2 ^ 63 \<le> u then 1 else 0)"
  proof -
    have "h = u div 2 ^ 63"
      by (simp add: h_def a_def div_mult2_eq [symmetric])
    moreover have "u div 2 ^ 63 < 2" using u by (simp add: less_mult_imp_div_less)
    moreover have "2 ^ 63 \<le> u \<longleftrightarrow> 1 \<le> u div 2 ^ 63"
      by (simp add: less_eq_div_iff_mult_less_eq)
    ultimately show ?thesis by auto
  qed
  have ua: "u = a * 2 ^ 52 + l" by (simp add: a_def l_def)
  have ah: "a = h * 2 ^ 11 + m" by (simp add: h_def m_def)
  have "u = (h * 2 ^ 11 + m) * 2 ^ 52 + l" using ua ah by simp
  then have "u = h * 2 ^ 63 + m * 2 ^ 52 + l" by (simp add: add_mult_distrib)
  then have "u = (if 2 ^ 63 \<le> u then 2 ^ 63 else 0) + m * 2 ^ 52 + l"
    by (simp add: h split: if_splits)
  then show ?thesis
    by (simp add: d_sign_def d_exp_def d_frac_def u_def a_def l_def m_def)
qed

lemma d_pack_fields: "d_pack (d_sign x) (d_exp x * 2 ^ 52 + d_frac x) = x"
proof -
  have "(if d_sign x then 2 ^ 63 else 0) + (d_exp x * 2 ^ 52 + d_frac x) = unat x"
    using unat_fields [of x] by simp
  then have "d_pack (d_sign x) (d_exp x * 2 ^ 52 + d_frac x) = of_nat (unat x)"
    by (simp only: d_pack_def)
  then show ?thesis by simp
qed

lemma round_mag_d_mag:
  assumes "0 < d" "d_exp x < 2047"
  shows "round_mag (d_mag x * d) d = d_exp x * 2 ^ 52 + d_frac x"
proof (cases "d_exp x = 0")
  case True
  have "d_frac x * d < 2 ^ 53 * d"
    using d_frac_less [of x] assms(1) by simp
  then have "round_mag (d_frac x * d) d = round_half_even (d_frac x * d) d"
    using assms(1) by (intro round_mag_below)
  then show ?thesis using True assms(1) by (simp add: d_mag_def round_half_even_exact)
next
  case False
  then obtain k where k: "d_exp x = Suc k" by (cases "d_exp x") simp_all
  have "round_mag ((2 ^ 52 + d_frac x) * 2 ^ k * d) d = k * 2 ^ 52 + (2 ^ 52 + d_frac x)"
    using assms k d_frac_less [of x] by (intro round_mag_exact) simp_all
  then show ?thesis using k by (simp add: d_mag_def)
qed

lemma zero_fields:
  "d_sign double_zero = False" "d_exp double_zero = 0" "d_frac double_zero = 0"
  "d_mag double_zero = 0" "d_units double_zero = 0"
  "is_nan double_zero = False" "is_inf double_zero = False"
  "d_pack False 0 = double_zero"
  by (simp_all add: double_zero_def d_sign_def d_exp_def d_frac_def d_mag_def d_units_def
      is_nan_def is_inf_def d_pack_def)

lemma d_units_zero_iff: "d_units x = 0 \<longleftrightarrow> d_mag x = 0"
  by (simp add: d_units_def)

lemma finite_exp: "\<not> is_nan a \<Longrightarrow> \<not> is_inf a \<Longrightarrow> d_exp a < 2047"
  by (simp add: is_nan_def is_inf_def d_exp_def)

lemma d_mag_zero_fields: "d_mag z = 0 \<Longrightarrow> d_exp z = 0 \<and> d_frac z = 0"
  by (simp add: d_mag_def split: if_splits)

lemma inf_fields: "is_inf x \<Longrightarrow> x = d_pack (d_sign x) inf_bits"
  using d_pack_fields [of x] by (simp add: is_inf_def inf_bits_def)

subsection \<open>Adding to zero, dividing by one, commutativity\<close>

lemma double_add_zero_mag_left:
  assumes "d_mag z = 0" "\<not> is_nan a" "d_mag a \<noteq> 0"
  shows "double_add z a = a"
proof -
  have z: "\<not> is_nan z" "\<not> is_inf z" "d_units z = 0"
    using d_mag_zero_fields [OF assms(1)] assms(1) by (simp_all add: is_nan_def is_inf_def d_units_def)
  show ?thesis
  proof (cases "is_inf a")
    case True
    then show ?thesis using z assms by (simp add: double_add_def)
  next
    case False
    have "round_mag (d_mag a * 1) 1 = d_exp a * 2 ^ 52 + d_frac a"
      using finite_exp [OF assms(2) False] by (intro round_mag_d_mag) simp_all
    then have r: "round_mag (d_mag a) 1 = d_exp a * 2 ^ 52 + d_frac a" by simp
    have s: "(d_units a < 0) = d_sign a" "nat \<bar>d_units a\<bar> = d_mag a"
      using assms(3) by (simp_all add: d_units_def)
    have "d_units a \<noteq> 0" using assms(3) by (simp add: d_units_def)
    then have "double_add z a = d_pack (d_units a < 0) (round_mag (nat \<bar>d_units a\<bar>) 1)"
      using assms(2) False z
      by (simp add: double_add_def Let_def)
    also have "\<dots> = a"
      by (simp only: s r d_pack_fields)
    finally show ?thesis .
  qed
qed

lemma double_add_zero_left:
  assumes "\<not> is_nan a"
  shows "double_add double_zero a = (if d_mag a = 0 then double_zero else a)"
proof (cases "d_mag a = 0")
  case True
  then have "\<not> is_inf a"
    using d_mag_zero_fields [of a] by (simp add: is_inf_def)
  then show ?thesis using True assms
    by (simp add: double_add_def zero_fields d_units_zero_iff)
next
  case False
  then show ?thesis
    using double_add_zero_mag_left [of double_zero a] assms by (simp add: zero_fields)
qed

lemma double_add_zero_left_eq:
  assumes "\<not> is_nan a"
  shows "double_eq (double_add double_zero a) a"
proof (cases "d_mag a = 0")
  case True
  then show ?thesis using assms
    by (simp add: double_add_zero_left double_eq_def zero_fields d_units_zero_iff)
next
  case False
  then show ?thesis using assms by (simp add: double_add_zero_left double_eq_def)
qed

lemma double_add_commute:
  assumes "\<not> is_nan x" "\<not> is_nan y"
  shows "double_add x y = double_add y x"
proof (cases "is_inf x \<and> is_inf y \<and> d_sign x = d_sign y")
  case True
  then have "x = y" using inf_fields [of x] inf_fields [of y] by simp
  then show ?thesis by simp
next
  case False
  then show ?thesis using assms
    by (auto simp: double_add_def Let_def add.commute conj_commute)
qed

lemma double_of_nat_1: "double_of_nat 1 = 0x3FF0000000000000"
proof -
  have "round_mag (2 ^ 52 * 2 ^ 1022 * 1) 1 = 1022 * 2 ^ 52 + 2 ^ 52"
    by (intro round_mag_exact) simp_all
  then show ?thesis by (simp add: double_of_nat_def d_pack_def)
qed

lemma one_fields:
  "d_sign 0x3FF0000000000000 = False" "d_exp 0x3FF0000000000000 = 1023"
  "d_frac 0x3FF0000000000000 = 0" "d_mag 0x3FF0000000000000 = 2 ^ 1074"
  by (simp_all add: d_sign_def d_exp_def d_frac_def d_mag_def)

lemma double_div_one:
  assumes "\<not> is_nan a"
  shows "double_div a 0x3FF0000000000000 = a"
proof (cases "is_inf a")
  case True
  then have "d_pack (d_sign a) inf_bits = a"
    using d_pack_fields [of a] by (simp add: is_inf_def inf_bits_def)
  then show ?thesis using True assms
    by (simp add: double_div_def is_nan_def is_inf_def one_fields)
next
  case False
  have r: "round_mag (d_mag a * 2 ^ 1074) (2 ^ 1074) = d_exp a * 2 ^ 52 + d_frac a"
    using finite_exp [OF assms False] by (intro round_mag_d_mag) simp_all
  have "double_div a 0x3FF0000000000000 = d_pack (d_sign a) (round_mag (d_mag a * 2 ^ 1074) (2 ^ 1074))"
    using assms False
    by (simp add: double_div_def is_nan_def is_inf_def one_fields)
  also have "\<dots> = a"
    by (simp only: r d_pack_fields)
  finally show ?thesis .
qed

subsection \<open>Arithmetic at concrete doubles\<close>

text \<open>
  The doubles used below: \<open>0x3FF0000000000000\<close> is 1.0, \<open>0x4000000000000000\<close> is 2.0,
  \<open>0x4008000000000000\<close> is 3.0, \<open>0x3FF8000000000000\<close> is 1.5, \<open>0x4340000000000000\<close> is
  \<open>2\<^sup>5\<^sup>3\<close> and \<open>0x4340000000000001\<close> is \<open>2\<^sup>5\<^sup>3 + 2\<close>, the next double after \<open>2\<^sup>5\<^sup>3\<close>.
  \<open>2\<^sup>5\<^sup>3 + 1\<close> is no double: it lies halfway between the two and rounds to the even one,
  \<open>2\<^sup>5\<^sup>3\<close>.
\<close>

lemma double_add_finite:
  assumes "d_exp x < 2047" "d_exp y < 2047"
    and "d_units x + d_units y = int n" "0 < n" "round_mag n 1 = p"
  shows "double_add x y = d_pack False p"
  using assms by (simp add: double_add_def is_nan_def is_inf_def Let_def)

lemma double_div_finite:
  assumes "d_exp x < 2047" "d_exp y < 2047" "0 < d_mag y"
    and "round_mag (d_mag x * 2 ^ 1074) (d_mag y) = p"
  shows "double_div x y = d_pack (d_sign x \<noteq> d_sign y) p"
  using assms by (simp add: double_div_def is_nan_def is_inf_def Let_def)

lemmas field_defs = d_sign_def d_exp_def d_frac_def d_mag_def d_units_def

lemma add_2p53_1: "double_add 0x4340000000000000 0x3FF0000000000000 = 0x4340000000000000"
proof -
  have "round_mag ((2 ^ 53 + 1) * 2 ^ 1074) 1 = 1076 * 2 ^ 52"
    using round_mag_scale [of 1 1 "2 ^ 53 + 1" 1074]
    by (simp add: round_half_even_def Let_def inf_bits_def)
  then have "double_add 0x4340000000000000 0x3FF0000000000000 = d_pack False (1076 * 2 ^ 52)"
    by (intro double_add_finite [where n = "(2 ^ 53 + 1) * 2 ^ 1074"]) (simp_all add: field_defs)
  then show ?thesis by (simp add: d_pack_def)
qed

lemma add_1_1: "double_add 0x3FF0000000000000 0x3FF0000000000000 = 0x4000000000000000"
proof -
  have "round_mag (2 ^ 52 * 2 ^ 1023 * 1) 1 = 1023 * 2 ^ 52 + 2 ^ 52"
    by (intro round_mag_exact) simp_all
  then have "round_mag (2 ^ 1075) 1 = 1024 * 2 ^ 52" by simp
  then have "double_add 0x3FF0000000000000 0x3FF0000000000000 = d_pack False (1024 * 2 ^ 52)"
    by (intro double_add_finite [where n = "2 ^ 1075"]) (simp_all add: field_defs)
  then show ?thesis by (simp add: d_pack_def)
qed

lemma round_2p53_plus_2: "round_mag (2 ^ 1127 + 2 ^ 1075) 1 = 1076 * 2 ^ 52 + 1"
proof -
  have "round_mag ((2 ^ 52 + 1) * 2 ^ 1075 * 1) 1 = 1075 * 2 ^ 52 + (2 ^ 52 + 1)"
    by (intro round_mag_exact) simp_all
  then show ?thesis by simp
qed


lemma add_2_2p53: "double_add 0x4000000000000000 0x4340000000000000 = 0x4340000000000001"
proof -
  have "double_add 0x4000000000000000 0x4340000000000000 = d_pack False (1076 * 2 ^ 52 + 1)"
    using round_2p53_plus_2
    by (intro double_add_finite [where n = "2 ^ 1127 + 2 ^ 1075"]) (simp_all add: field_defs)
  then show ?thesis by (simp add: d_pack_def)
qed

lemma double_of_nat_3: "double_of_nat 3 = 0x4008000000000000"
proof -
  have "round_mag (3 * 2 ^ 51 * 2 ^ 1023 * 1) 1 = 1023 * 2 ^ 52 + 3 * 2 ^ 51"
    by (intro round_mag_exact) simp_all
  then show ?thesis by (simp add: double_of_nat_def d_pack_def)
qed

lemma div_2p53_3: "double_div 0x4340000000000000 0x4008000000000000 = 0x4325555555555555"
proof -
  have "round_mag (2 ^ 55 * 2 ^ 1072) 3 = 1073 * 2 ^ 52 + 6004799503160661"
    using round_mag_scale [of 3 1 "2 ^ 55" 1072]
    by (simp add: round_half_even_def Let_def inf_bits_def)
  moreover have "round_mag (2 ^ 1127 * 2 ^ 1074) (3 * 2 ^ 1074) = round_mag (2 ^ 1127) 3"
    by (intro round_mag_cancel) simp
  ultimately have "round_mag (2 ^ 1127 * 2 ^ 1074) (3 * 2 ^ 1074) = 1073 * 2 ^ 52 + 6004799503160661"
    by simp
  then have "double_div 0x4340000000000000 0x4008000000000000
      = d_pack (d_sign 0x4340000000000000 \<noteq> d_sign 0x4008000000000000) (1073 * 2 ^ 52 + 6004799503160661)"
    by (intro double_div_finite) (simp_all add: field_defs)
  then show ?thesis by (simp add: d_pack_def d_sign_def)
qed

lemma div_2p53p2_3: "double_div 0x4340000000000001 0x4008000000000000 = 0x4325555555555557"
proof -
  have "round_mag ((2 ^ 55 + 8) * 2 ^ 1072) 3 = 1073 * 2 ^ 52 + 6004799503160663"
    using round_mag_scale [of 3 1 "2 ^ 55 + 8" 1072]
    by (simp add: round_half_even_def Let_def inf_bits_def)
  moreover have "round_mag ((2 ^ 1127 + 2 ^ 1075) * 2 ^ 1074) (3 * 2 ^ 1074) = round_mag (2 ^ 1127 + 2 ^ 1075) 3"
    by (intro round_mag_cancel) simp
  ultimately have "round_mag ((2 ^ 1127 + 2 ^ 1075) * 2 ^ 1074) (3 * 2 ^ 1074) = 1073 * 2 ^ 52 + 6004799503160663"
    by simp
  then have "double_div 0x4340000000000001 0x4008000000000000
      = d_pack (d_sign 0x4340000000000001 \<noteq> d_sign 0x4008000000000000) (1073 * 2 ^ 52 + 6004799503160663)"
    by (intro double_div_finite) (simp_all add: field_defs)
  then show ?thesis by (simp add: d_pack_def d_sign_def)
qed

lemma double_of_nat_2: "double_of_nat 2 = 0x4000000000000000"
proof -
  have "round_mag (2 ^ 52 * 2 ^ 1023 * 1) 1 = 1023 * 2 ^ 52 + 2 ^ 52"
    by (intro round_mag_exact) simp_all
  then show ?thesis by (simp add: double_of_nat_def d_pack_def)
qed

lemma add_1_2: "double_add 0x3FF0000000000000 0x4000000000000000 = 0x4008000000000000"
proof -
  have "round_mag (3 * 2 ^ 51 * 2 ^ 1023 * 1) 1 = 1023 * 2 ^ 52 + 3 * 2 ^ 51"
    by (intro round_mag_exact) simp_all
  then have "round_mag (2 ^ 1074 + 2 ^ 1075) 1 = 1024 * 2 ^ 52 + 2 ^ 51" by simp
  then have "double_add 0x3FF0000000000000 0x4000000000000000 = d_pack False (1024 * 2 ^ 52 + 2 ^ 51)"
    by (intro double_add_finite [where n = "2 ^ 1074 + 2 ^ 1075"]) (simp_all add: field_defs)
  then show ?thesis by (simp add: d_pack_def)
qed

lemma div_3_2: "double_div 0x4008000000000000 0x4000000000000000 = 0x3FF8000000000000"
proof -
  have "round_mag (3 * 2 ^ 51 * 2 ^ 1022 * 1) 1 = 1022 * 2 ^ 52 + 3 * 2 ^ 51"
    by (intro round_mag_exact) simp_all
  moreover have "round_mag (3 * 2 ^ 1073 * 2 ^ 1075) (1 * 2 ^ 1075) = round_mag (3 * 2 ^ 1073) 1"
    by (intro round_mag_cancel) simp
  ultimately have "round_mag (3 * 2 ^ 1074 * 2 ^ 1074) (2 ^ 1075) = 1022 * 2 ^ 52 + 3 * 2 ^ 51"
    by simp
  then have "double_div 0x4008000000000000 0x4000000000000000
      = d_pack (d_sign 0x4008000000000000 \<noteq> d_sign 0x4000000000000000) (1022 * 2 ^ 52 + 3 * 2 ^ 51)"
    by (intro double_div_finite) (simp_all add: field_defs)
  then show ?thesis by (simp add: d_pack_def d_sign_def)
qed

section \<open>Properties of calculateSum\<close>

lemma accumulate_values:
  "accumulate [0x4340000000000000, 0x3FF0000000000000, 0x3FF0000000000000] double_zero
     = 0x4340000000000000"
  "accumulate [0x4340000000000000] double_zero = 0x4340000000000000"
  "accumulate [0x3FF0000000000000, 0x3FF0000000000000] double_zero = 0x4000000000000000"
  "accumulate [0x3FF0000000000000, 0x3FF0000000000000, 0x4340000000000000] double_zero
     = 0x4340000000000001"
proof -
  have x: "double_add double_zero 0x4340000000000000 = 0x4340000000000000"
    by (subst double_add_zero_left) (simp_all add: is_nan_def field_defs)
  have y: "double_add double_zero 0x3FF0000000000000 = 0x3FF0000000000000"
    by (subst double_add_zero_left) (simp_all add: is_nan_def field_defs)
  show "accumulate [0x4340000000000000, 0x3FF0000000000000, 0x3FF0000000000000] double_zero
     = 0x4340000000000000"
    by (simp add: accumulate_def x add_2p53_1)
  show "accumulate [0x4340000000000000] double_zero = 0x4340000000000000"
    by (simp add: accumulate_def x)
  show "accumulate [0x3FF0000000000000, 0x3FF0000000000000] double_zero = 0x4000000000000000"
    by (simp add: accumulate_def y add_1_1)
  show "accumulate [0x3FF0000000000000, 0x3FF0000000000000, 0x4340000000000000] double_zero
     = 0x4340000000000001"
    by (simp add: accumulate_def y add_1_1 add_2_2p53)
qed

text \<open>
  A NaN compares unequal to every double, itself included: no result compares equal to a
  NaN input.
\<close>

lemma double_eq_nan: "is_nan a \<Longrightarrow> \<not> double_eq x a"
  by (simp add: double_eq_def)



subsection \<open>NaN results and the sign of zero\<close>








text \<open>
  What the fold does with a longer \<open>B\<close>: its elements are added to the sum of \<open>A\<close> one
  after the other, each addition rounded.
\<close>

lemma calculateSum_append:
  "calculateSum obj (A @ B) = accumulate B (calculateSum obj A)"
  by (simp add: calculateSum_def accumulate_def)

text \<open>
  Through the bridge, with a live handle and \<open>count\<close> readable doubles,
  \<open>MyCppClass_calculateSum\<close> returns \<open>calculateSum\<close> of the first \<open>count\<close> values.
\<close>

lemma MyCppClass_calculateSum_live:
  "objects st h = Some this \<Longrightarrow> unat count \<le> length vs \<Longrightarrow>
   MyCppClass_calculateSum st (Some h) (Some vs) count False
     = Inr (calculateSum this (take (unat count) vs))"
  by (simp add: MyCppClass_calculateSum_def)

text \<open>
  The sum of \<open>[+\<infinity>, -\<infinity>]\<close> is a NaN, which compares unequal to everything: the
  additivity below is stated for a sum that is not a NaN.
\<close>

lemma calculateSum_inf_nan:
  "is_nan (calculateSum obj ([0x7FF0000000000000] @ [0xFFF0000000000000]))"
proof -
  have "double_add double_zero 0x7FF0000000000000 = 0x7FF0000000000000"
    by (subst double_add_zero_left) (simp_all add: is_nan_def field_defs)
  moreover have "double_add 0x7FF0000000000000 0xFFF0000000000000 = default_nan"
    by (simp add: double_add_def is_nan_def is_inf_def d_exp_def d_frac_def d_sign_def)
  moreover have "is_nan default_nan"
    by (simp add: default_nan_def is_nan_def d_exp_def d_frac_def)
  ultimately show ?thesis by (simp add: calculateSum_def accumulate_def)
qed



section \<open>Properties of the C library\<close>

text \<open>
  C8 as stated fails where the sum leaves the 32-bit range: \<open>add_numbers\<close> of
  \<open>2\<^sup>3\<^sup>1 - 1\<close> and \<open>1\<close> is not the sum of the two numbers.
\<close>

theorem add_numbers_overflow_counterexample:
  "sint (add_numbers 0x7FFFFFFF 1) \<noteq> sint (0x7FFFFFFF :: 32 word) + sint (1 :: 32 word)"
  by (simp add: add_numbers_def)

text \<open>
  C8, amended: whenever the sum of the two arguments lies between \<open>-2\<^sup>3\<^sup>1\<close> and
  \<open>2\<^sup>3\<^sup>1 - 1\<close>, \<open>add_numbers\<close> returns that sum; and for all arguments
  \<open>add_numbers a b = add_numbers b a\<close> and \<open>add_numbers a 0 = a\<close>.
\<close>

theorem add_numbers_sum:
  "(- (2 ^ 31) \<le> sint a + sint b \<and> sint a + sint b < 2 ^ 31 \<longrightarrow>
      sint (add_numbers a b) = sint a + sint b) \<and>
   add_numbers a b = add_numbers b a \<and>
   add_numbers a 0 = a"
  by (simp add: add_numbers_def sint_add_in_range add.commute)

theorem add_numbers_sum_witness:
  "- (2 ^ 31) \<le> sint (2 :: 32 word) + sint (3 :: 32 word) \<and>
   sint (2 :: 32 word) + sint (3 :: 32 word) < 2 ^ 31 \<and>
   sint (add_numbers 2 3) = sint (2 :: 32 word) + sint (3 :: 32 word) \<and>
   sint (add_numbers 2 3) = 5 \<and>
   add_numbers 2 3 = add_numbers 3 2 \<and> add_numbers 2 0 = 2"
  using add_numbers_sum [of 2 3] by (simp add: add_numbers_def)

subsection \<open>calculate_average\<close>

text \<open>
  The loop adds the first \<open>count\<close> values to the accumulator from left to right, as
  \<open>accumulate\<close> does.
\<close>

lemma average_loop_foldl:
  "i \<le> count \<Longrightarrow> count \<le> length vs \<Longrightarrow>
   average_loop vs count i acc = Inr (foldl double_add acc (take (count - i) (drop i vs)))"
proof (induction "count - i" arbitrary: i acc)
  case 0
  then show ?case by (simp add: average_loop.simps)
next
  case (Suc n)
  then have lt: "i < count" "i < length vs" by simp_all
  have "average_loop vs count (Suc i) (double_add acc (vs ! i)) =
      Inr (foldl double_add (double_add acc (vs ! i)) (take (count - Suc i) (drop (Suc i) vs)))"
    using Suc by (intro Suc.hyps(1)) simp_all
  moreover have "take (count - i) (drop i vs) = vs ! i # take (count - Suc i) (drop (Suc i) vs)"
  proof -
    have "count - i = Suc (count - Suc i)" using lt by simp
    moreover have "drop i vs = vs ! i # drop (Suc i) vs"
      using lt by (simp add: Cons_nth_drop_Suc)
    ultimately show ?thesis by (simp only: take_Suc_Cons)
  qed
  ultimately show ?case using lt by (subst average_loop.simps) simp
qed

lemma calculate_average_take:
  assumes "count \<noteq> 0" "unat count \<le> length vs"
  shows "calculate_average (Some vs) count =
    Inr (double_div (accumulate (take (unat count) vs) double_zero) (double_of_nat (unat count)))"
  using assms average_loop_foldl [of 0 "unat count" vs double_zero]
  by (simp add: calculate_average_def accumulate_def)

lemma calculate_average_single:
  assumes "\<not> is_nan x"
  shows "calculate_average (Some [x]) 1 = Inr (double_add double_zero x)"
proof -
  have n: "\<not> is_nan (double_add double_zero x)"
    using assms by (simp add: double_add_zero_left zero_fields)
  have "calculate_average (Some [x]) 1 =
      Inr (double_div (accumulate (take (unat (1 :: size_t)) [x]) double_zero)
             (double_of_nat (unat (1 :: size_t))))"
    by (intro calculate_average_take) simp_all
  then show ?thesis using n double_of_nat_1
    by (simp add: accumulate_def double_div_one)
qed

lemma accumulate_pair_swap:
  assumes "\<not> is_nan a" "\<not> is_nan b"
  shows "accumulate [a, b] double_zero = accumulate [b, a] double_zero"
proof -
  have ab: "double_add a b = double_add b a"
    using assms by (rule double_add_commute)
  consider "d_mag a \<noteq> 0" "d_mag b \<noteq> 0" | "d_mag a = 0" "d_mag b \<noteq> 0"
    | "d_mag a \<noteq> 0" "d_mag b = 0" | "d_mag a = 0" "d_mag b = 0"
    by blast
  then show ?thesis
  proof cases
    case 1
    then show ?thesis using assms ab by (simp add: accumulate_def double_add_zero_left)
  next
    case 2
    then show ?thesis using assms ab
      by (simp add: accumulate_def double_add_zero_left double_add_zero_mag_left)
  next
    case 3
    then show ?thesis using assms ab [symmetric]
      by (simp add: accumulate_def double_add_zero_left double_add_zero_mag_left)
  next
    case 4
    then show ?thesis using assms by (simp add: accumulate_def double_add_zero_left)
  qed
qed

lemma average_1_2:
  "calculate_average (Some [0x3FF0000000000000, 0x4000000000000000]) 2 = Inr 0x3FF8000000000000"
proof -
  have "double_add double_zero 0x3FF0000000000000 = 0x3FF0000000000000"
    by (subst double_add_zero_left) (simp_all add: is_nan_def field_defs)
  then show ?thesis
    by (subst calculate_average_take)
      (simp_all add: accumulate_def add_1_2 double_of_nat_2 div_3_2)
qed

text \<open>
  C7 as stated fails for the reordering: the average of \<open>[2\<^sup>5\<^sup>3, 1.0, 1.0]\<close> and the
  average of the same three values in the order \<open>[1.0, 1.0, 2\<^sup>5\<^sup>3]\<close> differ, since the
  first sum is \<open>2\<^sup>5\<^sup>3\<close> and the second is \<open>2\<^sup>5\<^sup>3 + 2\<close>.
\<close>

theorem calculate_average_reorder_counterexample:
  "rotate1 [0x4340000000000000, 0x3FF0000000000000, 0x3FF0000000000000]
     = [0x3FF0000000000000, 0x3FF0000000000000, 0x4340000000000000 :: double] \<and>
   calculate_average (Some [0x4340000000000000, 0x3FF0000000000000, 0x3FF0000000000000]) 3
     = Inr 0x4325555555555555 \<and>
   calculate_average (Some [0x3FF0000000000000, 0x3FF0000000000000, 0x4340000000000000]) 3
     = Inr 0x4325555555555557 \<and>
   \<not> double_eq 0x4325555555555555 0x4325555555555557"
proof -
  have 1: "calculate_average (Some [0x4340000000000000, 0x3FF0000000000000, 0x3FF0000000000000]) 3
     = Inr 0x4325555555555555"
    by (subst calculate_average_take)
      (simp_all add: accumulate_values double_of_nat_3 div_2p53_3)
  have 2: "calculate_average (Some [0x3FF0000000000000, 0x3FF0000000000000, 0x4340000000000000]) 3
     = Inr 0x4325555555555557"
    by (subst calculate_average_take)
      (simp_all add: accumulate_values double_of_nat_3 div_2p53p2_3)
  have 3: "\<not> double_eq 0x4325555555555555 0x4325555555555557"
    by (simp add: double_eq_def field_defs)
  show ?thesis using 1 2 3 by simp
qed

text \<open>
  C7, amended: \<open>calculate_average\<close> returns 0.0 when \<open>count\<close> is 0; for the one-element
  sequence \<open>[x]\<close> with \<open>x\<close> not a NaN it returns a value that compares equal to \<open>x\<close>;
  for a non-zero \<open>count\<close> it returns the left-to-right sum of the first \<open>count\<close> values
  divided by \<open>count\<close>; and swapping the two values of a two-element input without NaN
  does not change the result.
\<close>

theorem calculate_average_spec:
  "calculate_average values 0 = Inr double_zero \<and>
   (\<not> is_nan x \<longrightarrow> (\<exists>r. calculate_average (Some [x]) 1 = Inr r \<and> double_eq r x)) \<and>
   (count \<noteq> 0 \<and> unat count \<le> length vs \<longrightarrow>
      calculate_average (Some vs) count =
        Inr (double_div (accumulate (take (unat count) vs) double_zero)
               (double_of_nat (unat count)))) \<and>
   (\<not> is_nan a \<and> \<not> is_nan b \<longrightarrow>
      calculate_average (Some [a, b]) 2 = calculate_average (Some [b, a]) 2)"
proof -
  have c1: "calculate_average values 0 = Inr double_zero"
    by (simp add: calculate_average_def)
  have c2: "\<exists>r. calculate_average (Some [x]) 1 = Inr r \<and> double_eq r x" if "\<not> is_nan x"
    using that by (simp add: calculate_average_single double_add_zero_left_eq)
  have c3: "calculate_average (Some vs) count =
      Inr (double_div (accumulate (take (unat count) vs) double_zero) (double_of_nat (unat count)))"
    if "count \<noteq> 0" "unat count \<le> length vs"
    using that by (rule calculate_average_take)
  have c4: "calculate_average (Some [a, b]) 2 = calculate_average (Some [b, a]) 2"
    if "\<not> is_nan a" "\<not> is_nan b"
    using accumulate_pair_swap [OF that] by (simp add: calculate_average_take)
  show ?thesis using c1 c2 c3 c4 by blast
qed

theorem calculate_average_spec_witness:
  "\<not> is_nan 0x3FF0000000000000 \<and> \<not> is_nan 0x4000000000000000 \<and>
   calculate_average (Some [0x3FF0000000000000]) 1 = Inr 0x3FF0000000000000 \<and>
   double_eq 0x3FF0000000000000 0x3FF0000000000000 \<and>
   (2 :: size_t) \<noteq> 0 \<and> unat (2 :: size_t) \<le> length [0x3FF0000000000000, 0x4000000000000000 :: double] \<and>
   calculate_average (Some [0x3FF0000000000000, 0x4000000000000000]) 2 = Inr 0x3FF8000000000000 \<and>
   calculate_average (Some [0x4000000000000000, 0x3FF0000000000000]) 2 = Inr 0x3FF8000000000000"
proof -
  have n: "\<not> is_nan 0x3FF0000000000000" "\<not> is_nan 0x4000000000000000"
    by (simp_all add: is_nan_def field_defs)
  have one: "calculate_average (Some [0x3FF0000000000000]) 1 = Inr 0x3FF0000000000000"
    using n(1) by (simp add: calculate_average_single double_add_zero_left field_defs)
  have eq: "double_eq 0x3FF0000000000000 0x3FF0000000000000"
    using n(1) by (simp add: double_eq_def)
  show ?thesis
    using calculate_average_spec [of "Some [0x3FF0000000000000]" "0x3FF0000000000000" 2
        "[0x3FF0000000000000, 0x4000000000000000]" "0x3FF0000000000000" "0x4000000000000000"]
      n one eq average_1_2
    by simp
qed

section \<open>Properties of the C bridge\<close>

text \<open>
  C2: for every \<^verbatim>\<open>int\<close> \<open>v\<close>, \<open>getValue\<close> on the object constructed with \<open>v\<close> returns
  \<open>v\<close>; and whenever \<open>MyCppClass_create\<close> returns a non-null handle, \<open>MyCppClass_getValue\<close>
  on that handle returns \<open>v\<close>.
\<close>

theorem create_getValue:
  "getValue (MyCppClass_ctor v) = v \<and>
   (MyCppClass_create st new_result v = (h, st') \<and> h \<noteq> None \<longrightarrow>
      MyCppClass_getValue st' h = Inr v)"
  by (auto simp: getValue_def MyCppClass_ctor_def MyCppClass_create_def MyCppClass_getValue_def
      split: option.splits)

theorem create_getValue_witness:
  "MyCppClass_create empty_state (Some 1) 42 =
     (Some 1, empty_state\<lparr>objects := [1 \<mapsto> MyCppClass_ctor 42]\<rparr>) \<and>
   Some (1::nat) \<noteq> None \<and>
   MyCppClass_getValue (empty_state\<lparr>objects := [1 \<mapsto> MyCppClass_ctor 42]\<rparr>) (Some 1) = Inr 42"
  using create_getValue [of 42 empty_state "Some 1" "Some 1"
      "empty_state\<lparr>objects := [1 \<mapsto> MyCppClass_ctor 42]\<rparr>"]
  by (simp add: MyCppClass_create_def empty_state_def)

text \<open>
  C1: with a null handle no bridge function faults, and each returns its sentinel:
  \<open>MyCppClass_destroy\<close>, \<open>MyCppClass_setValue\<close>, \<open>MyCppClass_increment\<close> and
  \<open>MyCppClass_setMessage\<close> leave the state as it was, \<open>MyCppClass_getValue\<close> returns 0,
  \<open>MyCppClass_getMessage\<close> returns null, and \<open>MyCppClass_calculateSum\<close> returns 0.0 when
  the handle or the values pointer is null.
\<close>

theorem null_handle_safe:
  "MyCppClass_destroy st None = Inr st \<and>
   MyCppClass_getValue st None = Inr 0 \<and>
   MyCppClass_getMessage st None copy_throws malloc_result = Inr (None, st) \<and>
   MyCppClass_setValue st None v = Inr st \<and>
   MyCppClass_increment st None = Inr st \<and>
   MyCppClass_setMessage st None message string_throws = Inr st \<and>
   MyCppClass_calculateSum st None values count vector_throws = Inr double_zero \<and>
   MyCppClass_calculateSum st obj None count vector_throws = Inr double_zero"
  by (simp add: MyCppClass_destroy_def MyCppClass_getValue_def MyCppClass_getMessage_def
      MyCppClass_setValue_def MyCppClass_increment_def MyCppClass_setMessage_def
      MyCppClass_calculateSum_def split: option.split)

text \<open>
  C10: \<open>MyCppClass_freeString\<close> on a null pointer does not fault and leaves the state as
  it was, so the null buffer that \<open>MyCppClass_getMessage\<close> returns on failure can be
  handed to it.
\<close>

theorem freeString_null:
  "MyCppClass_freeString st None = Inr st \<and>
   (MyCppClass_getMessage st obj copy_throws malloc_result = Inr (None, st') \<longrightarrow>
      MyCppClass_freeString st' None = Inr st')"
  by (simp add: MyCppClass_freeString_def)

theorem freeString_null_witness:
  "MyCppClass_getMessage (empty_state\<lparr>objects := [1 \<mapsto> MyCppClass_ctor 7]\<rparr>) (Some 1) False None
     = Inr (None, empty_state\<lparr>objects := [1 \<mapsto> MyCppClass_ctor 7]\<rparr>) \<and>
   MyCppClass_freeString (empty_state\<lparr>objects := [1 \<mapsto> MyCppClass_ctor 7]\<rparr>) None
     = Inr (empty_state\<lparr>objects := [1 \<mapsto> MyCppClass_ctor 7]\<rparr>)"
  using freeString_null [of "empty_state\<lparr>objects := [1 \<mapsto> MyCppClass_ctor 7]\<rparr>" "Some 1" False None
      "empty_state\<lparr>objects := [1 \<mapsto> MyCppClass_ctor 7]\<rparr>"]
  by (simp add: MyCppClass_getMessage_def empty_state_def)

end
